theory Spec2Isabelle
  imports Main "HOL-Library.Word"
begin

unbundle bit_operations_syntax

section \<open>internal/acServer/tcp.go: the TCP connection manager\<close>

subsection \<open>Bytes, errors and the transport\<close>

type_synonym byte = "8 word"
type_synonym MessageType = byte

text \<open>
  Go errors as values. \<open>OpError temporary\<close> is a \<^verbatim>\<open>*net.OpError\<close> whose
  \<^verbatim>\<open>Temporary()\<close> method returns \<open>temporary\<close>; every other error value (io.EOF,
  io.ErrUnexpectedEOF, whatever a handler returns) fails the type assertion
  \<^verbatim>\<open>err.(*net.OpError)\<close>.
\<close>

datatype error = OpError bool | EOF | ErrUnexpectedEOF | OtherError string

text \<open>The test \<^verbatim>\<open>e, ok := err.(*net.OpError); ok && !e.Temporary()\<close> of the read loop.\<close>

fun isPermanentOpError :: "error \<Rightarrow> bool" where
  "isPermanentOpError (OpError temporary) = (\<not> temporary)"
| "isPermanentOpError _ = False"

text \<open>
  What the peer delivers, in order: a segment of bytes that becomes readable at once, or a
  failure of the next read with the given error. When nothing is left, a read blocks.
\<close>

datatype arrival = Seg "byte list" | Fail error

datatype 'a rd = Got 'a "arrival list" | Failed error "arrival list" | Blocked

text \<open>
  \<^verbatim>\<open>conn.Read(buf)\<close> with \<open>len(buf) = n\<close>: one read returns what is readable now, at most
  \<open>n\<close> bytes, and leaves the rest of the segment for the next read. A read into an empty
  buffer returns \<open>0, nil\<close> at once.
\<close>

fun connRead :: "nat \<Rightarrow> arrival list \<Rightarrow> (byte list) rd" where
  "connRead n [] = (if n = 0 then Got [] [] else Blocked)"
| "connRead n (Fail e # s) = (if n = 0 then Got [] (Fail e # s) else Failed e s)"
| "connRead n (Seg bs # s) =
     (if n = 0 then Got [] (Seg bs # s)
      else if bs = [] then connRead n s
      else Got (take n bs) (if drop n bs = [] then s else Seg (drop n bs) # s))"

text \<open>
  \<^verbatim>\<open>io.ReadFull\<close>, which \<^verbatim>\<open>binary.Read\<close> uses: it reads again and again until \<open>need\<close>
  more bytes have arrived; \<open>acc\<close> holds the bytes read so far. An EOF after some bytes is
  reported as io.ErrUnexpectedEOF.
\<close>

fun readFull :: "nat \<Rightarrow> byte list \<Rightarrow> arrival list \<Rightarrow> (byte list) rd" where
  "readFull need acc [] = (if need = 0 then Got acc [] else Blocked)"
| "readFull need acc (Fail e # s) =
     (if need = 0 then Got acc (Fail e # s)
      else Failed (if acc \<noteq> [] \<and> e = EOF then ErrUnexpectedEOF else e) s)"
| "readFull need acc (Seg bs # s) =
     (if need = 0 then Got acc (Seg bs # s)
      else if need \<le> length bs
        then Got (acc @ take need bs) (if drop need bs = [] then s else Seg (drop need bs) # s)
      else readFull (need - length bs) (acc @ bs) s)"

text \<open>\<^verbatim>\<open>binary.LittleEndian.Uint16\<close>: \<^verbatim>\<open>uint16(b[0]) | uint16(b[1])<<8\<close>.\<close>

fun littleEndianUint16 :: "byte list \<Rightarrow> 16 word" where
  "littleEndianUint16 (b0 # b1 # _) = ucast b0 OR push_bit 8 (ucast b1)"
| "littleEndianUint16 _ = 0"

text \<open>\<^verbatim>\<open>binary.Read(conn, binary.LittleEndian, &messageLength)\<close> for a uint16.\<close>

definition binaryReadUint16 :: "arrival list \<Rightarrow> (16 word) rd" where
  "binaryReadUint16 s =
     (case readFull 2 [] s of
        Got bs s' \<Rightarrow> Got (littleEndianUint16 bs) s'
      | Failed e s' \<Rightarrow> Failed e s'
      | Blocked \<Rightarrow> Blocked)"

text \<open>
  The transport of a connection (\<^verbatim>\<open>net.Conn\<close>): what is still to arrive, the bytes written
  to the peer, the error the next write meets (if any), and how often \<^verbatim>\<open>Close\<close> was called.
\<close>

record transport =
  incoming :: "arrival list"
  outgoing :: "byte list"
  writeErr :: "error option"
  closeCalls :: nat

text \<open>
  \<^verbatim>\<open>type tcpConn struct { net.Conn; closer chan struct{} }\<close>. The channel has capacity 1
  and carries empty structs, so its content is the number of buffered signals.
  \<open>connId\<close> is the identity of the pointer, by which the server state finds the car.
\<close>

record tcpConn = transport +
  connId :: nat
  closer :: nat

text \<open>A \<^verbatim>\<open>net.Conn\<close> interface value: its dynamic type is \<^verbatim>\<open>*tcpConn\<close> or something else.\<close>

datatype netConn = IsTcpConn tcpConn | OtherConn transport

text \<open>\<^verbatim>\<open>conn.Close()\<close>: closing a closed transport returns an error.\<close>

definition connClose :: "tcpConn \<Rightarrow> bool \<times> tcpConn" where
  "connClose c = (0 < closeCalls c, c\<lparr>closeCalls := Suc (closeCalls c)\<rparr>)"

subsection \<open>Cars and the server state\<close>

text \<open>
  Modelled from the spec: the declarations of \<^verbatim>\<open>Car\<close>, \<^verbatim>\<open>Connection\<close> and
  \<^verbatim>\<open>ServerState.GetCarByTCPConn\<close> are not among the sources. A car slot has an id, an
  assigned connection (absent when unoccupied), a checksum-verification status, a tyre
  state and timing fields; the state looks a car up by its connection. The zero value
  \<^verbatim>\<open>Connection{}\<close> is \<open>None\<close>.
\<close>

record Car =
  CarID :: nat
  Connection :: "nat option"
  checksumVerified :: bool
  Tyres :: string
  LapCount :: nat

fun GetCarByTCPConn :: "Car list \<Rightarrow> nat \<Rightarrow> nat option" where
  "GetCarByTCPConn [] c = None"
| "GetCarByTCPConn (car # cars) c =
     (if Connection car = Some c then Some 0 else map_option Suc (GetCarByTCPConn cars c))"

subsection \<open>Handlers and the dispatcher\<close>

text \<open>
  A \<^verbatim>\<open>TCPMessageHandler\<close>: its declared message type and the outcome of \<^verbatim>\<open>OnMessage\<close> on
  the bytes of a packet (\<open>None\<close> is a nil error). The handlers themselves are not among the
  sources, so they are parameters.
\<close>

record TCPMessageHandler =
  MessageType :: MessageType
  OnMessage :: "byte list \<Rightarrow> error option"

text \<open>The loop of \<^verbatim>\<open>initMessageHandlers\<close>: a later handler of the same type replaces an earlier one.\<close>

fun initMessageHandlers ::
  "(MessageType \<rightharpoonup> TCPMessageHandler) \<Rightarrow> TCPMessageHandler list \<Rightarrow> (MessageType \<rightharpoonup> TCPMessageHandler)" where
  "initMessageHandlers m [] = m"
| "initMessageHandlers m (h # hs) = initMessageHandlers (m(MessageType h \<mapsto> h)) hs"

text \<open>Everything observable, in the order it happens: calls, log lines and prints.\<close>

datatype event =
    Invoked MessageType "byte list"      \<comment> \<open>\<^verbatim>\<open>messageHandler.OnMessage(conn, p)\<close>\<close>
  | HandlerError MessageType error       \<comment> \<open>"Message Handler: 0x%x returned error"\<close>
  | UnknownType MessageType nat          \<comment> \<open>"Unknown TCP message type: 0x%x (len: %d)"\<close>
  | HexDump "byte list"                  \<comment> \<open>\<^verbatim>\<open>fmt.Printf("%x\n", buf[:n])\<close>\<close>
  | ReadLengthError error                \<comment> \<open>"couldn't handle tcp connection (read message length)"\<close>
  | ReadMessageError error               \<comment> \<open>"couldn't handle tcp connection (read message)"\<close>
  | LookupCar "nat option"               \<comment> \<open>\<^verbatim>\<open>t.state.GetCarByTCPConn(conn)\<close>\<close>
  | ConnClose                            \<comment> \<open>\<^verbatim>\<open>conn.Close()\<close>\<close>
  | CloseFailed                          \<comment> \<open>"Could not close tcp connection for: %s"\<close>
  | CleanlyClosed                        \<comment> \<open>"Cleanly closed tcp connection for: %s"\<close>
  | ConnectionCleared nat                \<comment> \<open>\<^verbatim>\<open>car.Connection = Connection{}\<close>\<close>
  | ClosingListener                      \<comment> \<open>"Closing TCP Listener"\<close>
  | AcceptFailed error                   \<comment> \<open>"couldn't accept tcp connection"\<close>
  | KeepAliveFailed error                \<comment> \<open>"Could not set keepalive on connection"\<close>
  | KeepAlivePeriodFailed error          \<comment> \<open>"Could not set keepalive timeout on connection"\<close>
  | NoDelayFailed error                  \<comment> \<open>"Could not set no delay on connection"\<close>

text \<open>
  Where the goroutine of a connection stands: at the \<^verbatim>\<open>select\<close>, in the default branch
  (about to read), at one of the two sends \<^verbatim>\<open>conn.closer <- struct{}{}\<close>, or returned.
\<close>

datatype pc = AtSelect | Reading | Sending | Returned

record task =
  conn :: tcpConn
  pc :: pc
  trace :: "event list"

text \<open>A task together with the shared server state it runs against.\<close>

record world = task +
  cars :: "Car list"

text \<open>
  Modelled from the spec: \<^verbatim>\<open>Packet.Read\<close> is not among the sources. Reading past the end
  is a decode failure, so on an empty buffer \<^verbatim>\<open>messageType\<close> keeps its zero value.
\<close>

fun readMessageType :: "byte list \<Rightarrow> MessageType" where
  "readMessageType [] = 0"
| "readMessageType (b # _) = b"

text \<open>
  \<^verbatim>\<open>handleConnection\<close>: one \<^verbatim>\<open>conn.Read\<close> into a buffer of \<open>messageLength\<close> bytes, then the
  dispatch on the first byte of what was read. \<open>None\<close>: the read blocks.
\<close>

definition handleConnection ::
  "(MessageType \<rightharpoonup> TCPMessageHandler) \<Rightarrow> 16 word \<Rightarrow> world \<Rightarrow> (error option \<times> world) option" where
  "handleConnection H messageLength w =
     (case connRead (unat messageLength) (incoming (conn w)) of
        Blocked \<Rightarrow> None
      | Failed e s \<Rightarrow> Some (Some e, w\<lparr>conn := (conn w)\<lparr>incoming := s\<rparr>\<rparr>)
      | Got buf s \<Rightarrow>
          (let w1 = w\<lparr>conn := (conn w)\<lparr>incoming := s\<rparr>\<rparr>;
               messageType = readMessageType buf
           in case H messageType of
                Some messageHandler \<Rightarrow>
                  (case OnMessage messageHandler buf of
                     Some e \<Rightarrow>
                       Some (Some e, w1\<lparr>trace := trace w1 @
                         [Invoked (MessageType messageHandler) buf,
                          HandlerError (MessageType messageHandler) e]\<rparr>)
                   | None \<Rightarrow>
                       Some (None, w1\<lparr>trace := trace w1 @
                         [Invoked (MessageType messageHandler) buf]\<rparr>))
              | None \<Rightarrow>
                  Some (None, w1\<lparr>trace := trace w1 @
                    [UnknownType messageType (length buf), HexDump buf]\<rparr>)))"

text \<open>\<^verbatim>\<open>defer conn.Close()\<close>, run when the goroutine returns; its error is dropped.\<close>

definition returnFromTask :: "world \<Rightarrow> world" where
  "returnFromTask w =
     w\<lparr>conn := snd (connClose (conn w)), pc := Returned, trace := trace w @ [ConnClose]\<rparr>"

text \<open>The branch \<^verbatim>\<open>case <-conn.closer\<close> after the signal has been taken.\<close>

definition cleanup :: "world \<Rightarrow> world" where
  "cleanup w =
     (let car = GetCarByTCPConn (cars w) (connId (conn w));
          (failed, c1) = connClose (conn w);
          w1 = w\<lparr>conn := c1, trace := trace w @
                 [LookupCar car, ConnClose, if failed then CloseFailed else CleanlyClosed]\<rparr>;
          w2 = (case car of
                  Some i \<Rightarrow> w1\<lparr>cars := (cars w1)[i := (cars w1 ! i)\<lparr>Connection := None\<rparr>],
                              trace := trace w1 @ [ConnectionCleared i]\<rparr>
                | None \<Rightarrow> w1)
      in returnFromTask w2)"

text \<open>
  What both error branches of the read loop do with an error: a permanent
  \<^verbatim>\<open>*net.OpError\<close> goes to the send on \<^verbatim>\<open>conn.closer\<close>; anything else is logged and the
  goroutine returns.
\<close>

definition onError :: "(error \<Rightarrow> event) \<Rightarrow> error \<Rightarrow> world \<Rightarrow> world" where
  "onError logLine e w =
     (if isPermanentOpError e then w\<lparr>pc := Sending\<rparr>
      else returnFromTask (w\<lparr>trace := trace w @ [logLine e]\<rparr>))"

text \<open>
  One step of the goroutine of \<^verbatim>\<open>Listen\<close> that serves a connection. \<open>None\<close>: no step is
  possible (the goroutine has returned, or it blocks on a read or on a full channel).
\<close>

definition taskStep :: "(MessageType \<rightharpoonup> TCPMessageHandler) \<Rightarrow> world \<Rightarrow> world option" where
  "taskStep H w =
     (case pc w of
        AtSelect \<Rightarrow>
          (if 0 < closer (conn w)
           then Some (cleanup (w\<lparr>conn := (conn w)\<lparr>closer := closer (conn w) - 1\<rparr>\<rparr>))
           else Some (w\<lparr>pc := Reading\<rparr>))
      | Reading \<Rightarrow>
          (case binaryReadUint16 (incoming (conn w)) of
             Blocked \<Rightarrow> None
           | Failed e s \<Rightarrow> Some (onError ReadLengthError e (w\<lparr>conn := (conn w)\<lparr>incoming := s\<rparr>\<rparr>))
           | Got messageLength s \<Rightarrow>
               (case handleConnection H messageLength (w\<lparr>conn := (conn w)\<lparr>incoming := s\<rparr>\<rparr>) of
                  None \<Rightarrow> None
                | Some (None, w') \<Rightarrow> Some (w'\<lparr>pc := AtSelect\<rparr>)
                | Some (Some e, w') \<Rightarrow> Some (onError ReadMessageError e w')))
      | Sending \<Rightarrow>
          (if closer (conn w) < 1
           then Some (w\<lparr>conn := (conn w)\<lparr>closer := closer (conn w) + 1\<rparr>, pc := AtSelect\<rparr>)
           else None)
      | Returned \<Rightarrow> None)"

subsection \<open>The read loop run to its end\<close>

text \<open>
  The goroutine run alone, with nobody else touching the connection, until it returns or
  blocks for good. Every step uses up input or moves the goroutine closer to its return,
  which the measure below records.
\<close>

fun arrivalSize :: "arrival \<Rightarrow> nat" where
  "arrivalSize (Seg bs) = Suc (length bs)"
| "arrivalSize (Fail e) = 1"

definition streamSize :: "arrival list \<Rightarrow> nat" where
  "streamSize s = sum_list (map arrivalSize s)"

fun pcRank :: "pc \<Rightarrow> nat \<Rightarrow> nat" where
  "pcRank AtSelect k = (if 0 < k then 1 else 3)"
| "pcRank Reading k = 2"
| "pcRank Sending k = 2"
| "pcRank Returned k = 0"

definition taskMeasure :: "world \<Rightarrow> nat" where
  "taskMeasure w = 4 * streamSize (incoming (conn w)) + pcRank (pc w) (closer (conn w))"

lemma readFull_Got_size:
  "readFull need acc s = Got bs s' \<Longrightarrow> 0 < need \<Longrightarrow> streamSize s' < streamSize s"
  by (induction need acc s rule: readFull.induct)
     (auto simp: streamSize_def split: if_splits)

lemma readFull_Failed_size:
  "readFull need acc s = Failed e s' \<Longrightarrow> streamSize s' < streamSize s"
  by (induction need acc s rule: readFull.induct)
     (auto simp: streamSize_def split: if_splits)

lemma connRead_Got_size:
  "connRead n s = Got bs s' \<Longrightarrow> streamSize s' \<le> streamSize s"
  by (induction n s rule: connRead.induct)
     (auto simp: streamSize_def split: if_splits)

lemma connRead_Failed_size:
  "connRead n s = Failed e s' \<Longrightarrow> streamSize s' < streamSize s"
  by (induction n s rule: connRead.induct)
     (auto simp: streamSize_def split: if_splits)

lemma binaryReadUint16_Got_size:
  "binaryReadUint16 s = Got n s' \<Longrightarrow> streamSize s' < streamSize s"
  by (auto simp: binaryReadUint16_def split: rd.splits dest: readFull_Got_size)

lemma binaryReadUint16_Failed_size:
  "binaryReadUint16 s = Failed e s' \<Longrightarrow> streamSize s' < streamSize s"
  by (auto simp: binaryReadUint16_def split: rd.splits dest: readFull_Failed_size)

lemma handleConnection_size:
  "handleConnection H n w = Some (r, w') \<Longrightarrow>
     streamSize (incoming (conn w')) \<le> streamSize (incoming (conn w))"
  by (auto simp: handleConnection_def Let_def split: rd.splits option.splits
           dest: connRead_Got_size connRead_Failed_size less_imp_le)

lemma returnFromTask_measure [simp]:
  "taskMeasure (returnFromTask w) = 4 * streamSize (incoming (conn w))"
  by (simp add: taskMeasure_def returnFromTask_def connClose_def)

lemma cleanup_incoming [simp]: "incoming (conn (cleanup w)) = incoming (conn w)"
  by (simp add: cleanup_def returnFromTask_def connClose_def Let_def split: option.splits)

lemma cleanup_pc [simp]: "pc (cleanup w) = Returned"
  by (simp add: cleanup_def returnFromTask_def connClose_def Let_def split: option.splits)

lemma onError_measure:
  "taskMeasure (onError l e w) \<le> 4 * streamSize (incoming (conn w)) + 2"
proof (cases "isPermanentOpError e")
  case True
  then show ?thesis by (simp add: onError_def taskMeasure_def)
next
  case False
  then show ?thesis by (simp add: onError_def)
qed

lemma taskStep_decreases:
  assumes "taskStep H w = Some w'"
  shows "taskMeasure w' < taskMeasure w"
proof (cases "pc w")
  case AtSelect
  with assms show ?thesis
    by (auto simp: taskStep_def taskMeasure_def split: if_splits)
next
  case Reading
  show ?thesis
  proof (cases "binaryReadUint16 (incoming (conn w))")
    case Blocked
    with assms Reading show ?thesis by (simp add: taskStep_def)
  next
    case (Failed e s)
    from binaryReadUint16_Failed_size [OF Failed]
         onError_measure [of ReadLengthError e "w\<lparr>conn := (conn w)\<lparr>incoming := s\<rparr>\<rparr>"]
    show ?thesis using assms Reading Failed
      by (simp add: taskStep_def taskMeasure_def)
  next
    case (Got n s)
    let ?w1 = "w\<lparr>conn := (conn w)\<lparr>incoming := s\<rparr>\<rparr>"
    from binaryReadUint16_Got_size [OF Got]
    have lt: "streamSize s < streamSize (incoming (conn w))" .
    from assms Reading Got obtain r w2 where
      h: "handleConnection H n ?w1 = Some (r, w2)"
      by (auto simp: taskStep_def split: option.splits)
    from handleConnection_size [OF h]
    have le: "streamSize (incoming (conn w2)) \<le> streamSize s" by simp
    show ?thesis
    proof (cases r)
      case None
      with assms Reading Got h have "w' = w2\<lparr>pc := AtSelect\<rparr>"
        by (simp add: taskStep_def)
      with lt le show ?thesis by (simp add: taskMeasure_def)
    next
      case (Some e)
      with assms Reading Got h have "w' = onError ReadMessageError e w2"
        by (simp add: taskStep_def)
      with lt le onError_measure [of ReadMessageError e w2] show ?thesis
        by (simp add: taskMeasure_def)
    qed
  qed
next
  case Sending
  with assms show ?thesis
    by (auto simp: taskStep_def taskMeasure_def split: if_splits)
next
  case Returned
  with assms show ?thesis by (simp add: taskStep_def)
qed

function readLoop :: "(MessageType \<rightharpoonup> TCPMessageHandler) \<Rightarrow> world \<Rightarrow> world" where
  "readLoop H w = (case taskStep H w of None \<Rightarrow> w | Some w' \<Rightarrow> readLoop H w')"
  by pat_completeness auto
termination
  by (relation "measure (\<lambda>(H, w). taskMeasure w)") (auto dest: taskStep_decreases)

declare readLoop.simps [simp del]

subsection \<open>Asking for a close\<close>

text \<open>
  \<^verbatim>\<open>closeTCPConnection\<close>: the send \<^verbatim>\<open>c.closer <- struct{}{}\<close> when the connection is a
  \<^verbatim>\<open>*tcpConn\<close>. \<open>None\<close>: the channel is full and the sender blocks.
\<close>

fun closeTCPConnection :: "netConn \<Rightarrow> netConn option" where
  "closeTCPConnection (IsTcpConn c) =
     (if closer c < 1 then Some (IsTcpConn (c\<lparr>closer := closer c + 1\<rparr>)) else None)"
| "closeTCPConnection (OtherConn t) = Some (OtherConn t)"

text \<open>
  Modelled from the spec: \<^verbatim>\<open>Packet.WriteTCP\<close> is not among the sources. Encoding emits a
  2-byte little-endian length prefix covering the message-type byte and the payload.
\<close>

definition encodeFrame :: "byte list \<Rightarrow> byte list" where
  "encodeFrame b =
     (let n = (word_of_nat (length b) :: 16 word) in [ucast n, ucast (drop_bit 8 n)] @ b)"

definition WriteTCP :: "byte list \<Rightarrow> 'a transport_scheme \<Rightarrow> error option \<times> 'a transport_scheme" where
  "WriteTCP b t =
     (case writeErr t of
        Some e \<Rightarrow> (Some e, t)
      | None \<Rightarrow> (None, t\<lparr>outgoing := outgoing t @ encodeFrame b\<rparr>))"

fun writePacket :: "byte list \<Rightarrow> netConn \<Rightarrow> error option \<times> netConn" where
  "writePacket b (IsTcpConn c) = (case WriteTCP b c of (r, c') \<Rightarrow> (r, IsTcpConn c'))"
| "writePacket b (OtherConn t) = (case WriteTCP b t of (r, t') \<Rightarrow> (r, OtherConn t'))"

text \<open>\<^verbatim>\<open>closeTCPConnectionWithError\<close>. \<open>None\<close>: blocked in the send of \<^verbatim>\<open>closeTCPConnection\<close>.\<close>

definition closeTCPConnectionWithError ::
  "netConn \<Rightarrow> MessageType \<Rightarrow> (error option \<times> netConn) option" where
  "closeTCPConnectionWithError c errorMessage =
     (case writePacket [errorMessage] c of
        (Some err, c') \<Rightarrow> Some (Some err, c')
      | (None, c') \<Rightarrow>
          (case closeTCPConnection c' of
             None \<Rightarrow> None
           | Some c'' \<Rightarrow> Some (None, c'')))"

subsection \<open>One connection among other actors\<close>

text \<open>
  The goroutine of a connection does not run alone: any other goroutine may send on
  \<^verbatim>\<open>conn.closer\<close> through \<^verbatim>\<open>closeTCPConnection\<close> at any moment, and the handlers of
  other connections change the cars. A step is one step of the owner or one action of
  somebody else.
\<close>

datatype actor = Owner | External

inductive step ::
  "(MessageType \<rightharpoonup> TCPMessageHandler) \<Rightarrow> world \<Rightarrow> actor \<Rightarrow> world \<Rightarrow> bool" where
  owner: "taskStep H w = Some w' \<Longrightarrow> step H w Owner w'"
| signal: "closeTCPConnection (IsTcpConn (conn w)) = Some (IsTcpConn c') \<Longrightarrow>
     step H w External (w\<lparr>conn := c'\<rparr>)"
| others: "step H w External (w\<lparr>cars := cs\<rparr>)"

inductive reachable ::
  "(MessageType \<rightharpoonup> TCPMessageHandler) \<Rightarrow> world \<Rightarrow> world \<Rightarrow> bool" for H w0 where
  init: "reachable H w0 w0"
| after: "reachable H w0 w \<Longrightarrow> step H w a w' \<Longrightarrow> reachable H w0 w'"

text \<open>How often the cleanup block has run: each run starts with the lookup of the car.\<close>

fun isCleanupStart :: "event \<Rightarrow> bool" where
  "isCleanupStart (LookupCar _) = True"
| "isCleanupStart _ = False"

definition cleanupRuns :: "event list \<Rightarrow> nat" where
  "cleanupRuns tr = length (filter isCleanupStart tr)"

text \<open>The packets handed to handlers, in the order of the calls.\<close>

fun invoked :: "event list \<Rightarrow> byte list list" where
  "invoked [] = []"
| "invoked (Invoked t buf # tr) = buf # invoked tr"
| "invoked (_ # tr) = invoked tr"

subsection \<open>The listener\<close>

text \<open>
  What \<^verbatim>\<open>AcceptTCP\<close> hands over: the transport of the new connection and the errors, if
  any, of the three setters the accept loop calls on it.
\<close>

record accepted =
  link :: transport
  keepAliveErr :: "error option"
  keepAlivePeriodErr :: "error option"
  noDelayErr :: "error option"

datatype acceptPc = Accepting | AcceptReturned

text \<open>
  \<^verbatim>\<open>type TCP struct\<close> with what runs on it: \<open>closed\<close> is the content of the channel of
  capacity 1, \<open>toAccept\<close> what \<^verbatim>\<open>AcceptTCP\<close> will return while the listener is open,
  \<open>tasks\<close> the goroutines of the accepted connections.
\<close>

record TCP =
  messageHandlers :: "MessageType \<rightharpoonup> TCPMessageHandler"
  listenerOpen :: bool
  closed :: nat
  toAccept :: "(error + accepted) list"
  acceptPc :: acceptPc
  tasks :: "task list"
  state :: "Car list"
  logger :: "event list"

text \<open>\<^verbatim>\<open>t.listener.AcceptTCP()\<close>: an error once the listener is closed. \<open>None\<close>: it blocks.\<close>

definition AcceptTCP :: "TCP \<Rightarrow> ((error + accepted) \<times> TCP) option" where
  "AcceptTCP t =
     (if \<not> listenerOpen t then Some (Inl (OtherError ''use of closed network connection''), t)
      else case toAccept t of
             [] \<Rightarrow> None
           | a # rest \<Rightarrow> Some (a, t\<lparr>toAccept := rest\<rparr>))"

definition setterLog :: "(error \<Rightarrow> event) \<Rightarrow> error option \<Rightarrow> event list" where
  "setterLog line r = (case r of None \<Rightarrow> [] | Some e \<Rightarrow> [line e])"

text \<open>\<^verbatim>\<open>&tcpConn{Conn: conn, closer: make(chan struct{}, 1)}\<close> and the goroutine started on it.\<close>

definition newTask :: "nat \<Rightarrow> transport \<Rightarrow> task" where
  "newTask k t =
     \<lparr>conn = \<lparr>incoming = incoming t, outgoing = outgoing t, writeErr = writeErr t,
               closeCalls = closeCalls t, connId = k, closer = 0\<rparr>,
      pc = AtSelect, trace = []\<rparr>"

text \<open>One round of the accept loop of \<^verbatim>\<open>Listen\<close>. \<open>None\<close>: returned, or blocked in accept.\<close>

definition acceptStep :: "TCP \<Rightarrow> TCP option" where
  "acceptStep t =
     (case acceptPc t of
        AcceptReturned \<Rightarrow> None
      | Accepting \<Rightarrow>
          (case AcceptTCP t of
             None \<Rightarrow> None
           | Some (Inl err, t1) \<Rightarrow>
               (if 0 < closed t1
                then Some (t1\<lparr>closed := closed t1 - 1, acceptPc := AcceptReturned\<rparr>)
                else Some (t1\<lparr>logger := logger t1 @ [AcceptFailed err]\<rparr>))
           | Some (Inr a, t1) \<Rightarrow>
               Some (t1\<lparr>logger := logger t1
                          @ setterLog KeepAliveFailed (keepAliveErr a)
                          @ setterLog KeepAlivePeriodFailed (keepAlivePeriodErr a)
                          @ setterLog NoDelayFailed (noDelayErr a),
                        tasks := tasks t1 @ [newTask (length (tasks t1)) (link a)]\<rparr>)))"

text \<open>\<^verbatim>\<open>TCP.Close\<close>. \<open>None\<close>: blocked in the send on the full channel \<^verbatim>\<open>t.closed\<close>.\<close>

definition Close :: "TCP \<Rightarrow> (error option \<times> TCP) option" where
  "Close t =
     (let t1 = t\<lparr>logger := logger t @ [ClosingListener]\<rparr>
      in if closed t1 < 1
         then Some (if listenerOpen t1 then None
                    else Some (OtherError ''use of closed network connection''),
                    t1\<lparr>closed := closed t1 + 1, listenerOpen := False\<rparr>)
         else None)"


subsection \<open>Concrete handlers, connections and servers\<close>

text \<open>Small inputs on which the definitions above are run further down.\<close>

definition okHandler :: "MessageType \<Rightarrow> TCPMessageHandler" where
  "okHandler t = \<lparr>MessageType = t, OnMessage = (\<lambda>_. None)\<rparr>"

definition failingHandler :: "MessageType \<Rightarrow> error \<Rightarrow> TCPMessageHandler" where
  "failingHandler t e = \<lparr>MessageType = t, OnMessage = (\<lambda>_. Some e)\<rparr>"

definition exampleHandlers :: "MessageType \<rightharpoonup> TCPMessageHandler" where
  "exampleHandlers =
     initMessageHandlers Map.empty [okHandler 1, failingHandler 2 (OtherError ''checksum mismatch'')]"

text \<open>A dispatcher whose handlers of types 1 and 2 both accept every message.\<close>

definition acceptingHandlers :: "MessageType \<rightharpoonup> TCPMessageHandler" where
  "acceptingHandlers = initMessageHandlers Map.empty [okHandler 1, okHandler 2]"

text \<open>A connection just accepted, with what the peer will send and the cars of the server.\<close>

definition newWorld :: "arrival list \<Rightarrow> Car list \<Rightarrow> world" where
  "newWorld s cs =
     \<lparr>conn = \<lparr>incoming = s, outgoing = [], writeErr = None, closeCalls = 0, connId = 7, closer = 0\<rparr>,
      pc = AtSelect, trace = [], cars = cs\<rparr>"

text \<open>The same after somebody has sent the close signal.\<close>

definition signalled :: "world \<Rightarrow> world" where
  "signalled w = w\<lparr>conn := (conn w)\<lparr>closer := 1\<rparr>\<rparr>"

definition exampleCars :: "Car list" where
  "exampleCars =
     [\<lparr>CarID = 3, Connection = Some 7, checksumVerified = True, Tyres = ''SM'', LapCount = 5\<rparr>]"

text \<open>The zero value of a car: no id, no connection, no telemetry.\<close>

definition emptyCar :: Car where
  "emptyCar = \<lparr>CarID = 0, Connection = None, checksumVerified = False, Tyres = [], LapCount = 0\<rparr>"

definition exampleTCP :: TCP where
  "exampleTCP =
     \<lparr>messageHandlers = exampleHandlers, listenerOpen = True, closed = 0,
      toAccept = [Inl (OpError True)], acceptPc = Accepting,
      tasks = [newTask 0 \<lparr>incoming = [], outgoing = [], writeErr = None, closeCalls = 0\<rparr>],
      state = exampleCars, logger = []\<rparr>"

section \<open>resolver.go: the memoising resolver\<close>

text \<open>
  A pointer field of the \<^verbatim>\<open>Resolver\<close> is \<open>None\<close> (nil) or the address of an object.
  Every constructor call allocates a fresh object; \<open>constructed\<close> counts them and is the
  next address. The fields modelled are those that \<^verbatim>\<open>resolvePenaltiesHandler\<close>,
  \<^verbatim>\<open>resolvePenaltiesManager\<close> and \<^verbatim>\<open>resolveTrackManager\<close> read or write.
\<close>

record Resolver =
  trackManager :: "nat option"
  baseHandler :: "nat option"
  penaltiesHandler :: "nat option"
  penaltiesManager :: "nat option"
  constructed :: nat

definition construct :: "Resolver \<Rightarrow> nat \<times> Resolver" where
  "construct r = (constructed r, r\<lparr>constructed := Suc (constructed r)\<rparr>)"

definition resolveTrackManager :: "Resolver \<Rightarrow> nat option \<times> Resolver" where
  "resolveTrackManager r =
     (if trackManager r \<noteq> None then (trackManager r, r)
      else let (p, r1) = construct r;
               r2 = r1\<lparr>trackManager := Some p\<rparr>
           in (trackManager r2, r2))"

definition resolveBaseHandler :: "Resolver \<Rightarrow> nat option \<times> Resolver" where
  "resolveBaseHandler r =
     (if baseHandler r \<noteq> None then (baseHandler r, r)
      else let (p, r1) = construct r;
               r2 = r1\<lparr>baseHandler := Some p\<rparr>
           in (baseHandler r2, r2))"

text \<open>The guard reads \<^verbatim>\<open>r.penaltiesHandler\<close>, as the source does.\<close>

definition resolvePenaltiesManager :: "Resolver \<Rightarrow> nat option \<times> Resolver" where
  "resolvePenaltiesManager r =
     (if penaltiesHandler r \<noteq> None then (penaltiesManager r, r)
      else let (p, r1) = construct r;
               r2 = r1\<lparr>penaltiesManager := Some p\<rparr>
           in (penaltiesManager r2, r2))"

definition resolvePenaltiesHandler :: "Resolver \<Rightarrow> nat option \<times> Resolver" where
  "resolvePenaltiesHandler r =
     (if penaltiesHandler r \<noteq> None then (penaltiesHandler r, r)
      else let (b, r1) = resolveBaseHandler r;
               (m, r2) = resolvePenaltiesManager r1;
               (p, r3) = construct r2;
               r4 = r3\<lparr>penaltiesHandler := Some p\<rparr>
           in (penaltiesHandler r4, r4))"

text \<open>A resolver on which no resolve method has run yet.\<close>

definition freshResolver :: Resolver where
  "freshResolver = \<lparr>trackManager = None, baseHandler = None, penaltiesHandler = None,
     penaltiesManager = None, constructed = 0\<rparr>"

section \<open>Properties of the connection manager\<close>

subsection \<open>Running the loop\<close>

lemmas example_defs = newWorld_def exampleHandlers_def okHandler_def failingHandler_def
  exampleCars_def signalled_def

lemmas loop_defs = taskStep_def binaryReadUint16_def handleConnection_def onError_def
  cleanup_def returnFromTask_def connClose_def Let_def

lemma readLoop_None: "taskStep H w = None \<Longrightarrow> readLoop H w = w"
  by (subst readLoop.simps) simp

lemma readLoop_Some: "taskStep H w = Some w' \<Longrightarrow> readLoop H w = readLoop H w'"
  by (subst readLoop.simps) simp

lemma taskStep_Returned: "pc w = Returned \<Longrightarrow> taskStep H w = None"
  by (simp add: taskStep_def)

lemma returnFromTask_pc [simp]: "pc (returnFromTask w) = Returned"
  by (simp add: returnFromTask_def)

lemma readLoop_cleanup [simp]: "readLoop H (cleanup w) = cleanup w"
  by (rule readLoop_None) (simp add: taskStep_Returned)

lemma readLoop_returnFromTask [simp]: "readLoop H (returnFromTask w) = returnFromTask w"
  by (rule readLoop_None) (simp add: taskStep_Returned)

lemma readLoop_AtSelect_idle:
  "pc w = AtSelect \<Longrightarrow> closer (conn w) = 0 \<Longrightarrow> readLoop H w = readLoop H (w\<lparr>pc := Reading\<rparr>)"
  by (rule readLoop_Some) (simp add: taskStep_def)

text \<open>From the send on the empty channel the loop goes through the select into the cleanup.\<close>

lemma readLoop_Sending:
  assumes "pc w = Sending" and "closer (conn w) = 0"
  shows "readLoop H w = cleanup (w\<lparr>pc := AtSelect\<rparr>)"
proof -
  let ?w1 = "w\<lparr>conn := (conn w)\<lparr>closer := closer (conn w) + 1\<rparr>, pc := AtSelect\<rparr>"
  have s1: "taskStep H w = Some ?w1" using assms by (simp add: taskStep_def)
  have eq: "(conn w)\<lparr>closer := 0\<rparr> = conn w" using assms(2) by simp
  have s2: "taskStep H ?w1 = Some (cleanup (w\<lparr>pc := AtSelect\<rparr>))"
    by (simp add: taskStep_def assms(2) eq)
  have "readLoop H w = readLoop H ?w1" by (rule readLoop_Some [OF s1])
  also have "\<dots> = readLoop H (cleanup (w\<lparr>pc := AtSelect\<rparr>))" by (rule readLoop_Some [OF s2])
  also have "\<dots> = cleanup (w\<lparr>pc := AtSelect\<rparr>)" by (rule readLoop_cleanup)
  finally show ?thesis .
qed

lemma readLoop_onError:
  assumes "closer (conn w) = 0"
  shows "readLoop H (onError line e w) =
     (if isPermanentOpError e then cleanup (w\<lparr>pc := AtSelect\<rparr>)
      else returnFromTask (w\<lparr>trace := trace w @ [line e]\<rparr>))"
proof (cases "isPermanentOpError e")
  case True
  have "readLoop H (w\<lparr>pc := Sending\<rparr>) = cleanup (w\<lparr>pc := Sending, pc := AtSelect\<rparr>)"
    by (rule readLoop_Sending) (simp_all add: assms)
  with True show ?thesis by (simp add: onError_def)
next
  case False
  then show ?thesis by (simp add: onError_def)
qed

lemma readLoop_waiting:
  assumes "pc w = AtSelect" and "closer (conn w) = 0" and "incoming (conn w) = []"
  shows "readLoop H w = w\<lparr>pc := Reading\<rparr>"
proof -
  have s1: "taskStep H w = Some (w\<lparr>pc := Reading\<rparr>)" using assms by (simp add: taskStep_def)
  have s2: "taskStep H (w\<lparr>pc := Reading\<rparr>) = None"
    using assms by (simp add: taskStep_def binaryReadUint16_def)
  show ?thesis by (simp add: readLoop_Some [OF s1] readLoop_None [OF s2])
qed

text \<open>A message whose type has no handler: the step goes back to the select.\<close>

lemma taskStep_unknown:
  assumes "pc w = Reading"
    and "binaryReadUint16 (incoming (conn w)) = Got n s"
    and "connRead (unat n) s = Got buf s2"
    and "H (readMessageType buf) = None"
  shows "taskStep H w =
           Some (w\<lparr>conn := (conn w)\<lparr>incoming := s2\<rparr>,
                   trace := trace w @ [UnknownType (readMessageType buf) (length buf), HexDump buf],
                   pc := AtSelect\<rparr>)"
  using assms by (simp add: taskStep_def handleConnection_def)

text \<open>A handler that returns an error: the loop ends, one way or the other.\<close>

lemma readLoop_handler_error:
  assumes "pc w = Reading" and "closer (conn w) = 0"
    and "binaryReadUint16 (incoming (conn w)) = Got n s"
    and "connRead (unat n) s = Got buf s2"
    and "H (readMessageType buf) = Some h"
    and "OnMessage h buf = Some e"
  shows "readLoop H w =
     (if isPermanentOpError e
      then cleanup (w\<lparr>conn := (conn w)\<lparr>incoming := s2\<rparr>,
             trace := trace w @ [Invoked (MessageType h) buf, HandlerError (MessageType h) e],
             pc := AtSelect\<rparr>)
      else returnFromTask (w\<lparr>conn := (conn w)\<lparr>incoming := s2\<rparr>,
             trace := trace w @ [Invoked (MessageType h) buf, HandlerError (MessageType h) e,
                                 ReadMessageError e]\<rparr>))"
proof -
  let ?w1 = "w\<lparr>conn := (conn w)\<lparr>incoming := s2\<rparr>,
     trace := trace w @ [Invoked (MessageType h) buf, HandlerError (MessageType h) e]\<rparr>"
  have st: "taskStep H w = Some (onError ReadMessageError e ?w1)"
    using assms(1,3-6) by (simp add: taskStep_def handleConnection_def)
  have "readLoop H (onError ReadMessageError e ?w1) =
     (if isPermanentOpError e then cleanup (?w1\<lparr>pc := AtSelect\<rparr>)
      else returnFromTask (?w1\<lparr>trace := trace ?w1 @ [ReadMessageError e]\<rparr>))"
    by (rule readLoop_onError) (simp add: assms(2))
  then show ?thesis by (simp add: readLoop_Some [OF st])
qed

subsection \<open>Counting cleanups\<close>

lemma cleanupRuns_append [simp]: "cleanupRuns (xs @ ys) = cleanupRuns xs + cleanupRuns ys"
  by (simp add: cleanupRuns_def)

lemma cleanupRuns_Nil [simp]: "cleanupRuns [] = 0"
  by (simp add: cleanupRuns_def)

lemma cleanupRuns_Cons [simp]:
  "cleanupRuns (x # xs) = (if isCleanupStart x then 1 else 0) + cleanupRuns xs"
  by (simp add: cleanupRuns_def)

lemma cleanupRuns_cleanup:
  "cleanupRuns (trace (cleanup w)) = Suc (cleanupRuns (trace w))"
  by (simp add: cleanup_def returnFromTask_def connClose_def Let_def split: option.splits)

lemma cleanupRuns_returnFromTask [simp]:
  "cleanupRuns (trace (returnFromTask w)) = cleanupRuns (trace w)"
  by (simp add: returnFromTask_def)

lemma closer_returnFromTask [simp]: "closer (conn (returnFromTask w)) = closer (conn w)"
  by (simp add: returnFromTask_def connClose_def)

lemma handleConnection_keeps:
  "handleConnection H n w = Some (r, w') \<Longrightarrow>
     cleanupRuns (trace w') = cleanupRuns (trace w) \<and> closer (conn w') = closer (conn w)"
  by (auto simp: handleConnection_def Let_def split: rd.splits option.splits)

lemma onError_keeps:
  "\<not> isCleanupStart (line e) \<Longrightarrow>
     cleanupRuns (trace (onError line e w)) = cleanupRuns (trace w) \<and>
     closer (conn (onError line e w)) = closer (conn w)"
  by (simp add: onError_def)

text \<open>
  A step of the owner either leaves the count of cleanups as it is and takes nothing from
  the channel, or it is the one that takes the signal, runs the cleanup and returns.
\<close>

lemma taskStep_cleanup_or_not:
  assumes "taskStep H w = Some w'"
  shows "(cleanupRuns (trace w') = cleanupRuns (trace w) \<and> closer (conn w) \<le> closer (conn w')) \<or>
         (pc w' = Returned \<and> cleanupRuns (trace w') = Suc (cleanupRuns (trace w)))"
proof (cases "pc w")
  case AtSelect
  with assms show ?thesis
    by (auto simp: taskStep_def cleanupRuns_cleanup split: if_splits)
next
  case Reading
  show ?thesis
  proof (cases "binaryReadUint16 (incoming (conn w))")
    case Blocked
    with assms Reading show ?thesis by (simp add: taskStep_def)
  next
    case (Failed e s)
    with assms Reading show ?thesis
      using onError_keeps [of ReadLengthError e "w\<lparr>conn := (conn w)\<lparr>incoming := s\<rparr>\<rparr>"]
      by (auto simp: taskStep_def)
  next
    case (Got n s)
    from assms Reading Got obtain r w2 where
      h: "handleConnection H n (w\<lparr>conn := (conn w)\<lparr>incoming := s\<rparr>\<rparr>) = Some (r, w2)"
      by (auto simp: taskStep_def split: option.splits)
    from handleConnection_keeps [OF h]
    have k: "cleanupRuns (trace w2) = cleanupRuns (trace w)" "closer (conn w2) = closer (conn w)"
      by simp_all
    show ?thesis
    proof (cases r)
      case None
      with assms Reading Got h have "w' = w2\<lparr>pc := AtSelect\<rparr>" by (simp add: taskStep_def)
      with k show ?thesis by simp
    next
      case (Some e)
      with assms Reading Got h have "w' = onError ReadMessageError e w2"
        by (simp add: taskStep_def)
      with k onError_keeps [of ReadMessageError e w2] show ?thesis by simp
    qed
  qed
next
  case Sending
  with assms show ?thesis by (auto simp: taskStep_def split: if_splits)
next
  case Returned
  with assms show ?thesis by (simp add: taskStep_def)
qed

lemma step_cleanup_or_not:
  assumes "step H w a w'"
  shows "(cleanupRuns (trace w') = cleanupRuns (trace w) \<and> pc w' = pc w \<and> a = External) \<or>
         (a = Owner \<and> pc w \<noteq> Returned \<and> cleanupRuns (trace w') = cleanupRuns (trace w)) \<or>
         (a = Owner \<and> pc w \<noteq> Returned \<and> pc w' = Returned \<and>
            cleanupRuns (trace w') = Suc (cleanupRuns (trace w)))"
  using assms
proof cases
  case owner
  then have "pc w \<noteq> Returned" by (auto simp: taskStep_def)
  with owner taskStep_cleanup_or_not [of H w w'] show ?thesis by auto
next
  case (signal c')
  then show ?thesis by simp
next
  case (others cs)
  then show ?thesis by simp
qed

lemma reachable_invariant:
  assumes "reachable H w0 w"
  shows "cleanupRuns (trace w) = cleanupRuns (trace w0) \<or>
         (pc w = Returned \<and> cleanupRuns (trace w) = Suc (cleanupRuns (trace w0)))"
  using assms
proof (induction rule: reachable.induct)
  case init
  show ?case by simp
next
  case (after w a w')
  from step_cleanup_or_not [OF after.hyps(2)] after.IH show ?case by auto
qed

lemma step_consumes_owner:
  assumes "step H w a w'" and "closer (conn w') < closer (conn w)"
  shows "a = Owner \<and> pc w' = Returned"
  using assms
proof cases
  case owner
  with taskStep_cleanup_or_not [of H w w'] assms(2) show ?thesis by auto
next
  case (signal c')
  with assms(2) show ?thesis by (auto split: if_splits)
next
  case (others cs)
  with assms(2) show ?thesis by simp
qed

text \<open>
  C1. For every connection the cleanup block runs at most once, whoever sends the close
  signal and however the sends interleave with the steps of the owner: in every state
  reachable from a fresh goroutine the cleanup has run at most once; once it has run the
  goroutine has returned and takes no further step; and a step that takes a signal out
  of \<^verbatim>\<open>conn.closer\<close> is a step of the owner, after which the owner has returned.
\<close>

theorem cleanup_at_most_once:
  assumes "reachable H w0 w" and "trace w0 = []"
  shows "cleanupRuns (trace w) \<le> 1 \<and>
         (cleanupRuns (trace w) = 1 \<longrightarrow> pc w = Returned \<and> taskStep H w = None) \<and>
         (\<forall>a w'. step H w a w' \<and> closer (conn w') < closer (conn w) \<longrightarrow>
            a = Owner \<and> pc w' = Returned)"
proof -
  from reachable_invariant [OF assms(1)] assms(2)
  have "cleanupRuns (trace w) = 0 \<or> (pc w = Returned \<and> cleanupRuns (trace w) = 1)" by simp
  then have "cleanupRuns (trace w) \<le> 1 \<and>
      (cleanupRuns (trace w) = 1 \<longrightarrow> pc w = Returned \<and> taskStep H w = None)"
    by (auto simp: taskStep_Returned)
  with step_consumes_owner show ?thesis by blast
qed

text \<open>
  The theorem at a state reached by an outside signal followed by the owner's select: the
  cleanup has run once and the goroutine has returned.
\<close>

theorem cleanup_at_most_once_witness:
  "reachable exampleHandlers (newWorld [Fail (OpError False)] exampleCars)
     (cleanup (newWorld [Fail (OpError False)] exampleCars)) \<and>
   trace (newWorld [Fail (OpError False)] exampleCars) = [] \<and>
   cleanupRuns (trace (cleanup (newWorld [Fail (OpError False)] exampleCars))) = 1 \<and>
   pc (cleanup (newWorld [Fail (OpError False)] exampleCars)) = Returned \<and>
   taskStep exampleHandlers (cleanup (newWorld [Fail (OpError False)] exampleCars)) = None"
proof -
  let ?w0 = "newWorld [Fail (OpError False)] exampleCars"
  have s1: "step exampleHandlers ?w0 External (?w0\<lparr>conn := (conn ?w0)\<lparr>closer := 1\<rparr>\<rparr>)"
    by (rule step.signal) (simp add: newWorld_def)
  have s2: "step exampleHandlers (?w0\<lparr>conn := (conn ?w0)\<lparr>closer := 1\<rparr>\<rparr>) Owner (cleanup ?w0)"
    by (rule step.owner) (simp add: taskStep_def newWorld_def)
  have r: "reachable exampleHandlers ?w0 (cleanup ?w0)"
    by (rule reachable.after [OF reachable.after [OF reachable.init s1] s2])
  have t: "trace ?w0 = []" by (simp add: newWorld_def)
  have c: "cleanupRuns (trace (cleanup ?w0)) = 1" by (simp add: cleanupRuns_cleanup t)
  from cleanup_at_most_once [OF r t] r t c show ?thesis by simp
qed

text \<open>
  When the signal from outside arrives after the owner has left the select and the read
  then fails for good, the owner's own send finds the channel full: the goroutine blocks
  and the cleanup does not run at all.
\<close>

lemma error_after_signal_blocks:
  "reachable exampleHandlers (newWorld [Fail (OpError False)] exampleCars)
     ((signalled (newWorld [] exampleCars))\<lparr>pc := Sending\<rparr>) \<and>
   taskStep exampleHandlers ((signalled (newWorld [] exampleCars))\<lparr>pc := Sending\<rparr>) = None \<and>
   cleanupRuns (trace ((signalled (newWorld [] exampleCars))\<lparr>pc := Sending\<rparr>)) = 0"
proof -
  let ?w0 = "newWorld [Fail (OpError False)] exampleCars"
  let ?w1 = "?w0\<lparr>pc := Reading\<rparr>"
  let ?w2 = "?w1\<lparr>conn := (conn ?w1)\<lparr>closer := 1\<rparr>\<rparr>"
  let ?w3 = "(signalled (newWorld [] exampleCars))\<lparr>pc := Sending\<rparr>"
  have s1: "step exampleHandlers ?w0 Owner ?w1"
    by (rule step.owner) (simp add: taskStep_def newWorld_def)
  have s2: "step exampleHandlers ?w1 External ?w2"
    by (rule step.signal) (simp add: newWorld_def)
  have s3: "step exampleHandlers ?w2 Owner ?w3"
    by (rule step.owner)
       (simp add: taskStep_def newWorld_def signalled_def binaryReadUint16_def onError_def)
  have "reachable exampleHandlers ?w0 ?w3"
    by (rule reachable.after [OF reachable.after [OF reachable.after [OF reachable.init s1] s2] s3])
  then show ?thesis by (simp add: taskStep_def newWorld_def signalled_def)
qed

subsection \<open>Reading a frame\<close>

text \<open>
  C2. After the length prefix \<open>N\<close> the read loop reads exactly \<open>N\<close> payload bytes before it
  dispatches, and a peer that delivers fewer is seen as a transport error. The code does
  not do this: \<^verbatim>\<open>handleConnection\<close> calls \<^verbatim>\<open>conn.Read\<close> once and dispatches the bytes that
  one read returned. Here the peer declares 10 bytes, delivers 3 and resets: the handler
  of type 1 is invoked on the 3 bytes, and only the next read of a length prefix meets
  the reset.
\<close>

theorem short_read_is_dispatched:
  "readLoop exampleHandlers (newWorld [Seg [10, 0], Seg [1, 2, 3], Fail (OpError False)] exampleCars) =
     (newWorld [] [(exampleCars ! 0)\<lparr>Connection := None\<rparr>])
       \<lparr>conn := (conn (newWorld [] exampleCars))\<lparr>closeCalls := 2\<rparr>,
        pc := Returned,
        trace := [Invoked 1 [1, 2, 3], LookupCar (Some 0), ConnClose, CleanlyClosed,
                  ConnectionCleared 0, ConnClose]\<rparr>"
  by (simp add: readLoop.simps loop_defs example_defs)

subsection \<open>Read errors\<close>

text \<open>
  C3, as the code has it. A read error on the length prefix or on the payload, met with no
  signal pending, ends the loop in one of two ways. A \<^verbatim>\<open>*net.OpError\<close> that is not
  temporary sends the close signal, and the next round of the loop runs the cleanup.
  Every other error, a temporary one included, is logged and the goroutine returns at
  once: the deferred \<^verbatim>\<open>Close\<close> runs, the cleanup does not, and nothing is read again.
\<close>

theorem read_error_classification:
  assumes "pc w = Reading" and "closer (conn w) = 0"
    and "(binaryReadUint16 (incoming (conn w)) = Failed e s' \<and> line = ReadLengthError) \<or>
         (\<exists>n s. binaryReadUint16 (incoming (conn w)) = Got n s \<and>
                connRead (unat n) s = Failed e s' \<and> line = ReadMessageError)"
  shows "readLoop H w =
     (if isPermanentOpError e
      then cleanup (w\<lparr>conn := (conn w)\<lparr>incoming := s'\<rparr>, pc := AtSelect\<rparr>)
      else returnFromTask (w\<lparr>conn := (conn w)\<lparr>incoming := s'\<rparr>, trace := trace w @ [line e]\<rparr>))"
proof -
  let ?w1 = "w\<lparr>conn := (conn w)\<lparr>incoming := s'\<rparr>\<rparr>"
  have st: "taskStep H w = Some (onError line e ?w1)"
    using assms(1,3)
    by (auto simp: taskStep_def handleConnection_def)
  have "readLoop H (onError line e ?w1) =
     (if isPermanentOpError e then cleanup (?w1\<lparr>pc := AtSelect\<rparr>)
      else returnFromTask (?w1\<lparr>trace := trace ?w1 @ [line e]\<rparr>))"
    by (rule readLoop_onError) (simp add: assms(2))
  then show ?thesis by (simp add: readLoop_Some [OF st])
qed

theorem read_error_classification_witness:
  "pc ((newWorld [Fail (OpError False)] exampleCars)\<lparr>pc := Reading\<rparr>) = Reading \<and>
   closer (conn ((newWorld [Fail (OpError False)] exampleCars)\<lparr>pc := Reading\<rparr>)) = 0 \<and>
   binaryReadUint16 (incoming (conn ((newWorld [Fail (OpError False)] exampleCars)\<lparr>pc := Reading\<rparr>)))
     = Failed (OpError False) [] \<and>
   readLoop exampleHandlers ((newWorld [Fail (OpError False)] exampleCars)\<lparr>pc := Reading\<rparr>) =
     cleanup (newWorld [] exampleCars)"
  using read_error_classification
    [where w = "(newWorld [Fail (OpError False)] exampleCars)\<lparr>pc := Reading\<rparr>"
       and e = "OpError False" and s' = "[]" and line = ReadLengthError and H = exampleHandlers]
  by (simp add: newWorld_def binaryReadUint16_def)

text \<open>
  C3 as the specification states it, that a temporary error makes the loop read again,
  fails: after a temporary error on the length prefix the goroutine has returned, and the
  frame the peer sent next is still unread.
\<close>

theorem temporary_error_counterexample:
  "readLoop exampleHandlers (newWorld [Fail (OpError True), Seg [1, 0, 1]] []) =
     (newWorld [Seg [1, 0, 1]] [])
       \<lparr>conn := (conn (newWorld [Seg [1, 0, 1]] []))\<lparr>closeCalls := 1\<rparr>,
        pc := Returned, trace := [ReadLengthError (OpError True), ConnClose]\<rparr>"
  by (simp add: readLoop.simps loop_defs example_defs)

subsection \<open>Handler errors\<close>

text \<open>
  C4, as the code has it. When the handler of a dispatched message returns an error, with
  no signal pending, the error is logged with the declared type of the handler and handed
  back to the read loop, which treats it like a read error: a permanent \<^verbatim>\<open>*net.OpError\<close>
  sends the close signal and the cleanup runs; any other error is logged once more and the
  goroutine returns. Either way the goroutine has returned and the frames that follow are
  not read.
\<close>

theorem handler_error_ends_loop:
  assumes "pc w = Reading" and "closer (conn w) = 0"
    and "binaryReadUint16 (incoming (conn w)) = Got n s"
    and "connRead (unat n) s = Got buf s2"
    and "H (readMessageType buf) = Some h"
    and "OnMessage h buf = Some e"
  shows "readLoop H w =
     (if isPermanentOpError e
      then cleanup (w\<lparr>conn := (conn w)\<lparr>incoming := s2\<rparr>,
             trace := trace w @ [Invoked (MessageType h) buf, HandlerError (MessageType h) e],
             pc := AtSelect\<rparr>)
      else returnFromTask (w\<lparr>conn := (conn w)\<lparr>incoming := s2\<rparr>,
             trace := trace w @ [Invoked (MessageType h) buf, HandlerError (MessageType h) e,
                                 ReadMessageError e]\<rparr>)) \<and>
     pc (readLoop H w) = Returned \<and> incoming (conn (readLoop H w)) = s2"
proof -
  note eq = readLoop_handler_error [of w n s buf s2 H h e, OF assms]
  show ?thesis
    unfolding eq by (simp add: returnFromTask_def connClose_def)
qed

theorem handler_error_ends_loop_witness:
  "pc ((newWorld [Seg [2, 0, 2, 9], Seg [1, 0, 1]] [])\<lparr>pc := Reading\<rparr>) = Reading \<and>
   closer (conn ((newWorld [Seg [2, 0, 2, 9], Seg [1, 0, 1]] [])\<lparr>pc := Reading\<rparr>)) = 0 \<and>
   binaryReadUint16 (incoming (conn ((newWorld [Seg [2, 0, 2, 9], Seg [1, 0, 1]] [])\<lparr>pc := Reading\<rparr>)))
     = Got 2 [Seg [2, 9], Seg [1, 0, 1]] \<and>
   connRead (unat (2 :: 16 word)) [Seg [2, 9], Seg [1, 0, 1]] = Got [2, 9] [Seg [1, 0, 1]] \<and>
   exampleHandlers (readMessageType [2, 9]) = Some (failingHandler 2 (OtherError ''checksum mismatch'')) \<and>
   OnMessage (failingHandler 2 (OtherError ''checksum mismatch'')) [2, 9] = Some (OtherError ''checksum mismatch'') \<and>
   pc (readLoop exampleHandlers
      ((newWorld [Seg [2, 0, 2, 9], Seg [1, 0, 1]] [])\<lparr>pc := Reading\<rparr>)) = Returned \<and>
   incoming (conn (readLoop exampleHandlers
      ((newWorld [Seg [2, 0, 2, 9], Seg [1, 0, 1]] [])\<lparr>pc := Reading\<rparr>))) = [Seg [1, 0, 1]]"
  using handler_error_ends_loop
    [where w = "(newWorld [Seg [2, 0, 2, 9], Seg [1, 0, 1]] [])\<lparr>pc := Reading\<rparr>"
       and n = 2 and s = "[Seg [2, 9], Seg [1, 0, 1]]" and buf = "[2, 9]" and ?s2.0 = "[Seg [1, 0, 1]]"
       and H = exampleHandlers and h = "failingHandler 2 (OtherError ''checksum mismatch'')"
       and e = "OtherError ''checksum mismatch''"]
  by (simp add: example_defs binaryReadUint16_def returnFromTask_def connClose_def)

text \<open>
  C4 as the specification states it, that a handler error does not abort the loop, fails:
  the handler of type 2 returns an error on the first frame, the goroutine returns, and
  the second frame is never dispatched.
\<close>

theorem handler_error_counterexample:
  "readLoop exampleHandlers (newWorld [Seg [2, 0, 2, 9], Seg [1, 0, 1]] []) =
     (newWorld [Seg [1, 0, 1]] [])
       \<lparr>conn := (conn (newWorld [Seg [1, 0, 1]] []))\<lparr>closeCalls := 1\<rparr>,
        pc := Returned,
        trace := [Invoked 2 [2, 9], HandlerError 2 (OtherError ''checksum mismatch''),
                  ReadMessageError (OtherError ''checksum mismatch''), ConnClose]\<rparr>"
  by (simp add: readLoop.simps loop_defs example_defs)

subsection \<open>The cleanup\<close>

lemma GetCarByTCPConn_Some:
  "GetCarByTCPConn cs c = Some i \<Longrightarrow> i < length cs \<and> Connection (cs ! i) = Some c"
  by (induction cs arbitrary: i) (auto split: if_splits)

text \<open>
  C5, as the code has it. When the cleanup of a connection runs it looks up the car of the
  connection, closes the transport first, and then, when a car was found, resets the
  \<^verbatim>\<open>Connection\<close> field of that car to its zero value. No other field of any car changes
  (the cars before and after are equal up to their \<^verbatim>\<open>Connection\<close>), so after the cleanup
  the slot has no assigned connection and keeps its id and its other data.
\<close>

theorem cleanup_resets_connection_only:
  assumes "pc w = AtSelect" and "0 < closer (conn w)"
  shows "\<exists>w'. taskStep H w = Some w' \<and> pc w' = Returned \<and>
     trace w' = trace w
       @ [LookupCar (GetCarByTCPConn (cars w) (connId (conn w))), ConnClose,
          if 0 < closeCalls (conn w) then CloseFailed else CleanlyClosed]
       @ (case GetCarByTCPConn (cars w) (connId (conn w)) of
            None \<Rightarrow> [] | Some i \<Rightarrow> [ConnectionCleared i])
       @ [ConnClose] \<and>
     cars w' = (case GetCarByTCPConn (cars w) (connId (conn w)) of
                  None \<Rightarrow> cars w
                | Some i \<Rightarrow> (cars w)[i := (cars w ! i)\<lparr>Connection := None\<rparr>]) \<and>
     map (\<lambda>c. c\<lparr>Connection := None\<rparr>) (cars w') = map (\<lambda>c. c\<lparr>Connection := None\<rparr>) (cars w) \<and>
     (\<forall>i. GetCarByTCPConn (cars w) (connId (conn w)) = Some i \<longrightarrow> Connection (cars w' ! i) = None)"
proof (cases "GetCarByTCPConn (cars w) (connId (conn w))")
  case None
  with assms show ?thesis
    by (simp add: taskStep_def cleanup_def returnFromTask_def connClose_def)
next
  case (Some i)
  from GetCarByTCPConn_Some [OF Some] have i: "i < length (cars w)" by simp
  have m: "map (\<lambda>c. c\<lparr>Connection := None\<rparr>) ((cars w)[i := (cars w ! i)\<lparr>Connection := None\<rparr>])
         = map (\<lambda>c. c\<lparr>Connection := None\<rparr>) (cars w)"
    using i by (simp add: map_update list_update_same_conv)
  from assms Some i m show ?thesis
    by (simp add: taskStep_def cleanup_def returnFromTask_def connClose_def)
qed

theorem cleanup_resets_connection_only_witness:
  "pc (signalled (newWorld [] exampleCars)) = AtSelect \<and>
   0 < closer (conn (signalled (newWorld [] exampleCars))) \<and>
   (\<exists>w'. taskStep exampleHandlers (signalled (newWorld [] exampleCars)) = Some w' \<and>
      cars w' = [(exampleCars ! 0)\<lparr>Connection := None\<rparr>])"
  using cleanup_resets_connection_only
    [where w = "signalled (newWorld [] exampleCars)" and H = exampleHandlers]
  by (simp add: example_defs) blast

text \<open>
  C5 as the specification states it, that the cleanup first puts the slot back to its
  empty default (no id, zero telemetry) and then closes the transport, fails: the car of
  the connection keeps its id 3 and its 5 laps, so the slot is not the empty car, and the
  transport is closed before the connection of the car is cleared.
\<close>

theorem cleanup_counterexample:
  "cars (readLoop exampleHandlers (signalled (newWorld [] exampleCars))) =
     [\<lparr>CarID = 3, Connection = None, checksumVerified = True, Tyres = ''SM'', LapCount = 5\<rparr>] \<and>
   cars (readLoop exampleHandlers (signalled (newWorld [] exampleCars))) \<noteq> [emptyCar] \<and>
   trace (readLoop exampleHandlers (signalled (newWorld [] exampleCars))) =
     [LookupCar (Some 0), ConnClose, CleanlyClosed, ConnectionCleared 0, ConnClose]"
  by (simp add: readLoop.simps loop_defs example_defs emptyCar_def)

subsection \<open>Unknown message types\<close>



subsection \<open>Closing the listener\<close>

text \<open>
  C7. \<^verbatim>\<open>Close()\<close> stops the accept loop and nothing else: when it returns, the flag is set
  and the listener is closed, while the goroutines of the open connections (their close
  channels and transports among them) and the cars are what they were; the next round of
  the accept loop meets the accept failure, takes the flag and returns without a log
  line. An accept failure while the flag is not set is logged, and the accept loop stays
  in its loop.
\<close>

theorem Close_stops_accepting_only:
  assumes "Close t = Some (r, t')" and "acceptPc t = Accepting"
  shows "tasks t' = tasks t \<and> state t' = state t \<and> \<not> listenerOpen t' \<and> closed t' = 1 \<and>
     acceptStep t' = Some (t'\<lparr>closed := 0, acceptPc := AcceptReturned\<rparr>) \<and>
     (\<forall>e rest. listenerOpen t \<and> toAccept t = Inl e # rest \<longrightarrow>
        acceptStep t = Some (t\<lparr>toAccept := rest, logger := logger t @ [AcceptFailed e]\<rparr>))"
  using assms
  by (auto simp: Close_def acceptStep_def AcceptTCP_def Let_def split: if_splits)

theorem Close_stops_accepting_only_witness:
  "Close exampleTCP =
     Some (None, exampleTCP\<lparr>listenerOpen := False, closed := 1, logger := [ClosingListener]\<rparr>) \<and>
   acceptPc exampleTCP = Accepting \<and>
   tasks (exampleTCP\<lparr>listenerOpen := False, closed := 1, logger := [ClosingListener]\<rparr>) =
     tasks exampleTCP \<and>
   acceptStep (exampleTCP\<lparr>listenerOpen := False, closed := 1, logger := [ClosingListener]\<rparr>) =
     Some (exampleTCP\<lparr>listenerOpen := False, closed := 0, acceptPc := AcceptReturned,
                       logger := [ClosingListener]\<rparr>) \<and>
   acceptStep exampleTCP =
     Some (exampleTCP\<lparr>toAccept := [], logger := [AcceptFailed (OpError True)]\<rparr>)"
  using Close_stops_accepting_only
    [where t = exampleTCP and r = None
       and t' = "exampleTCP\<lparr>listenerOpen := False, closed := 1, logger := [ClosingListener]\<rparr>"]
  by (simp add: exampleTCP_def Close_def)

subsection \<open>The order of dispatch\<close>

lemma invoked_append [simp]: "invoked (xs @ ys) = invoked xs @ invoked ys"
  by (induction xs rule: invoked.induct) simp_all

lemma invoked_cleanup [simp]: "invoked (trace (cleanup w)) = invoked (trace w)"
  by (simp add: cleanup_def returnFromTask_def connClose_def Let_def split: option.splits)

lemma invoked_returnFromTask [simp]: "invoked (trace (returnFromTask w)) = invoked (trace w)"
  by (simp add: returnFromTask_def)

lemma littleEndianUint16_encode:
  "littleEndianUint16 [ucast n, ucast (drop_bit 8 n)] = (n :: 16 word)"
  apply simp
  apply (rule bit_word_eqI)
  apply (auto simp: bit_simps)
  done

lemma unat_length_frame:
  "length f < 65536 \<Longrightarrow> unat (word_of_nat (length f) :: 16 word) = length f"
  by (simp add: unat_of_nat take_bit_nat_eq_self)

lemma binaryReadUint16_frame:
  "f \<noteq> [] \<Longrightarrow>
     binaryReadUint16 (Seg (encodeFrame f) # rest) = Got (word_of_nat (length f)) (Seg f # rest)"
  using littleEndianUint16_encode [of "word_of_nat (length f)"]
  by (simp add: binaryReadUint16_def encodeFrame_def Let_def)

lemma connRead_frame:
  "f \<noteq> [] \<Longrightarrow> connRead (length f) (Seg f # rest) = Got f rest"
  by simp

lemma readMessageType_hd: "f \<noteq> [] \<Longrightarrow> readMessageType f = hd f"
  by (cases f) simp_all

text \<open>A frame that arrives whole is read whole: its length, then its bytes.\<close>

lemma frame_read:
  assumes "incoming (conn w) = Seg (encodeFrame f) # rest" and "f \<noteq> []" and "length f < 65536"
  shows "binaryReadUint16 (incoming (conn w)) = Got (word_of_nat (length f)) (Seg f # rest) \<and>
         connRead (unat (word_of_nat (length f) :: 16 word)) (Seg f # rest) = Got f rest \<and>
         readMessageType f = hd f"
  using assms
  by (simp add: binaryReadUint16_frame unat_length_frame readMessageType_hd
      del: connRead.simps add: connRead_frame)

lemma readLoop_frame:
  assumes "pc w = AtSelect" and "closer (conn w) = 0"
    and "incoming (conn w) = Seg (encodeFrame f) # rest"
    and "f \<noteq> []" and "length f < 65536"
    and "H (hd f) = Some h" and "OnMessage h f = None"
  shows "readLoop H w =
     readLoop H (w\<lparr>conn := (conn w)\<lparr>incoming := rest\<rparr>,
                   trace := trace w @ [Invoked (MessageType h) f]\<rparr>)"
proof -
  let ?w1 = "w\<lparr>pc := Reading\<rparr>"
  let ?w2 = "w\<lparr>conn := (conn w)\<lparr>incoming := rest\<rparr>,
                trace := trace w @ [Invoked (MessageType h) f]\<rparr>"
  have s1: "taskStep H w = Some ?w1" using assms(1,2) by (simp add: taskStep_def)
  have "taskStep H ?w1 = Some (?w2\<lparr>pc := AtSelect\<rparr>)"
    using assms(3-7)
    by (simp add: taskStep_def handleConnection_def binaryReadUint16_frame
        unat_length_frame readMessageType_hd del: connRead.simps add: connRead_frame)
  moreover have "?w2\<lparr>pc := AtSelect\<rparr> = ?w2" using assms(1) by simp
  ultimately have s2: "taskStep H ?w1 = Some ?w2" by simp
  have "readLoop H w = readLoop H ?w1" by (rule readLoop_Some [OF s1])
  also have "\<dots> = readLoop H ?w2" by (rule readLoop_Some [OF s2])
  finally show ?thesis .
qed

text \<open>
  Whatever the handlers answer, the packets handed to handlers are those of a prefix of
  the frames sent, less the frames of unknown type, in the order of sending.
\<close>

lemma frames_prefix:
  assumes "pc w = AtSelect" and "closer (conn w) = 0"
    and "incoming (conn w) = map (\<lambda>f. Seg (encodeFrame f)) fs"
    and "\<forall>f \<in> set fs. f \<noteq> [] \<and> length f < 65536"
  shows "\<exists>k \<le> length fs. invoked (trace (readLoop H w)) =
           invoked (trace w) @ filter (\<lambda>f. H (hd f) \<noteq> None) (take k fs)"
  using assms
proof (induction fs arbitrary: w)
  case Nil
  then show ?case by (simp add: readLoop_waiting)
next
  case (Cons f fs)
  let ?rest = "map (\<lambda>f. Seg (encodeFrame f)) fs"
  let ?r = "w\<lparr>pc := Reading\<rparr>"
  from Cons.prems have f: "f \<noteq> []" "length f < 65536" by simp_all
  have inc: "incoming (conn ?r) = Seg (encodeFrame f) # ?rest" using Cons.prems(3) by simp
  note rd = frame_read [OF inc f]
  have idle: "readLoop H w = readLoop H ?r"
    using Cons.prems(1,2) by (rule readLoop_AtSelect_idle)
  show ?case
  proof (cases "H (hd f)")
    case None
    let ?w2 = "?r\<lparr>conn := (conn ?r)\<lparr>incoming := ?rest\<rparr>,
        trace := trace ?r @ [UnknownType (readMessageType f) (length f), HexDump f],
        pc := AtSelect\<rparr>"
    have "taskStep H ?r = Some ?w2"
      using taskStep_unknown [of ?r _ "Seg f # ?rest" f ?rest H] rd None by simp
    then have "readLoop H ?r = readLoop H ?w2" by (rule readLoop_Some)
    moreover have "\<exists>k \<le> length fs. invoked (trace (readLoop H ?w2)) =
           invoked (trace ?w2) @ filter (\<lambda>f. H (hd f) \<noteq> None) (take k fs)"
      using Cons.prems by (intro Cons.IH) simp_all
    then obtain k where "k \<le> length fs" "invoked (trace (readLoop H ?w2)) =
           invoked (trace ?w2) @ filter (\<lambda>f. H (hd f) \<noteq> None) (take k fs)" by blast
    ultimately have "Suc k \<le> length (f # fs) \<and> invoked (trace (readLoop H w)) =
           invoked (trace w) @ filter (\<lambda>f. H (hd f) \<noteq> None) (take (Suc k) (f # fs))"
      using idle None by simp
    then show ?thesis by blast
  next
    case (Some h)
    show ?thesis
    proof (cases "OnMessage h f")
      case None
      let ?w2 = "w\<lparr>conn := (conn w)\<lparr>incoming := ?rest\<rparr>,
                    trace := trace w @ [Invoked (MessageType h) f]\<rparr>"
      have "readLoop H w = readLoop H ?w2"
        using Cons.prems(1-3) f Some None by (intro readLoop_frame) simp_all
      moreover have "\<exists>k \<le> length fs. invoked (trace (readLoop H ?w2)) =
           invoked (trace ?w2) @ filter (\<lambda>f. H (hd f) \<noteq> None) (take k fs)"
        using Cons.prems by (intro Cons.IH) simp_all
      then obtain k where "k \<le> length fs" "invoked (trace (readLoop H ?w2)) =
           invoked (trace ?w2) @ filter (\<lambda>f. H (hd f) \<noteq> None) (take k fs)" by blast
      ultimately have "Suc k \<le> length (f # fs) \<and> invoked (trace (readLoop H w)) =
           invoked (trace w) @ filter (\<lambda>f. H (hd f) \<noteq> None) (take (Suc k) (f # fs))"
        using Some by simp
      then show ?thesis by blast
    next
      case (Some e)
      have "invoked (trace (readLoop H ?r)) = invoked (trace w) @ [f]"
        using readLoop_handler_error [of ?r _ "Seg f # ?rest" f ?rest H h e] rd \<open>H (hd f) = Some h\<close>
          Some Cons.prems(2)
        by simp
      then have "Suc 0 \<le> length (f # fs) \<and> invoked (trace (readLoop H w)) =
           invoked (trace w) @ filter (\<lambda>f. H (hd f) \<noteq> None) (take (Suc 0) (f # fs))"
        using idle \<open>H (hd f) = Some h\<close> by simp
      then show ?thesis by blast
    qed
  qed
qed

text \<open>When every frame has a handler that accepts it, every frame is handed over, in order.\<close>

lemma frames_all:
  assumes "pc w = AtSelect" and "closer (conn w) = 0"
    and "incoming (conn w) = map (\<lambda>f. Seg (encodeFrame f)) fs"
    and "\<forall>f \<in> set fs. f \<noteq> [] \<and> length f < 65536 \<and>
           (\<exists>h. H (hd f) = Some h \<and> OnMessage h f = None)"
  shows "invoked (trace (readLoop H w)) = invoked (trace w) @ fs \<and>
         pc (readLoop H w) = Reading \<and> incoming (conn (readLoop H w)) = []"
  using assms
proof (induction fs arbitrary: w)
  case Nil
  then show ?case by (simp add: readLoop_waiting)
next
  case (Cons f fs)
  from Cons.prems(4) obtain h where
    f: "f \<noteq> []" "length f < 65536" "H (hd f) = Some h" "OnMessage h f = None"
    by auto
  let ?w2 = "w\<lparr>conn := (conn w)\<lparr>incoming := map (\<lambda>f. Seg (encodeFrame f)) fs\<rparr>,
                trace := trace w @ [Invoked (MessageType h) f]\<rparr>"
  have "readLoop H w = readLoop H ?w2"
    using Cons.prems(1-3) f by (intro readLoop_frame) simp_all
  moreover have "invoked (trace (readLoop H ?w2)) = invoked (trace ?w2) @ fs \<and>
         pc (readLoop H ?w2) = Reading \<and> incoming (conn (readLoop H ?w2)) = []"
    using Cons.prems by (intro Cons.IH) simp_all
  ultimately show ?case by simp
qed

text \<open>
  When every frame arrives whole, in a segment of its own, the order of sending is kept:
  the packets handed to handlers are, in this order, those of a prefix of \<open>fs\<close> without
  the frames of unknown type, whatever the handlers answer; and when every frame has a
  handler that returns no error, they are exactly \<open>fs\<close>, after which the goroutine waits
  for the next frame.
\<close>

lemma whole_frames_dispatched_in_order:
  assumes "pc w = AtSelect" and "closer (conn w) = 0"
    and "incoming (conn w) = map (\<lambda>f. Seg (encodeFrame f)) fs"
    and "\<forall>f \<in> set fs. f \<noteq> [] \<and> length f < 65536"
  shows "(\<exists>k \<le> length fs. invoked (trace (readLoop H w)) =
            invoked (trace w) @ filter (\<lambda>f. H (hd f) \<noteq> None) (take k fs)) \<and>
         ((\<forall>f \<in> set fs. \<exists>h. H (hd f) = Some h \<and> OnMessage h f = None) \<longrightarrow>
            invoked (trace (readLoop H w)) = invoked (trace w) @ fs \<and>
            pc (readLoop H w) = Reading)"
proof (intro conjI impI)
  show "\<exists>k \<le> length fs. invoked (trace (readLoop H w)) =
            invoked (trace w) @ filter (\<lambda>f. H (hd f) \<noteq> None) (take k fs)"
    using assms by (rule frames_prefix)
next
  assume ok: "\<forall>f \<in> set fs. \<exists>h. H (hd f) = Some h \<and> OnMessage h f = None"
  with assms(4) have "\<forall>f \<in> set fs. f \<noteq> [] \<and> length f < 65536 \<and>
           (\<exists>h. H (hd f) = Some h \<and> OnMessage h f = None)" by blast
  from frames_all [OF assms(1-3) this]
  show "invoked (trace (readLoop H w)) = invoked (trace w) @ fs"
    and "pc (readLoop H w) = Reading" by simp_all
qed

text \<open>
  C8. On every connection the frames are dispatched to handlers strictly in the order
  they arrive on the stream: messages sent as S1, S2 reach their handlers as S1, S2. The
  code does not do this on every connection. The client sends the frames \<open>[1, 1, 0, 2]\<close>
  and \<open>[2, 9]\<close>, whose bytes on the wire are \<open>4 0 1 1 0 2 2 0 2 9\<close>, and the transport
  delivers them in two segments cut inside the first frame. The one \<^verbatim>\<open>conn.Read\<close> of
  \<^verbatim>\<open>handleConnection\<close> returns the single byte that has arrived, which is dispatched as a
  message; the rest of the first frame is then read as a length prefix and a message of
  type 2 that the client never sent; only then the second frame follows. The handlers are
  invoked on \<open>[1]\<close>, \<open>[2]\<close>, \<open>[2, 9]\<close>, while the same bytes arriving whole are
  dispatched as sent.
\<close>

theorem split_frames_not_dispatched_as_sent:
  "encodeFrame [1, 1, 0, 2] @ encodeFrame [2, 9] = [4, 0, 1] @ [1, 0, 2, 2, 0, 2, 9] \<and>
   readLoop acceptingHandlers (newWorld [Seg [4, 0, 1], Seg [1, 0, 2, 2, 0, 2, 9]] []) =
     (newWorld [] [])\<lparr>pc := Reading,
        trace := [Invoked 1 [1], Invoked 2 [2], Invoked 2 [2, 9]]\<rparr> \<and>
   invoked (trace (readLoop acceptingHandlers
      (newWorld [Seg [4, 0, 1], Seg [1, 0, 2, 2, 0, 2, 9]] []))) = [[1], [2], [2, 9]] \<and>
   invoked (trace (readLoop acceptingHandlers
      (newWorld [Seg (encodeFrame [1, 1, 0, 2]), Seg (encodeFrame [2, 9])] []))) =
     [[1, 1, 0, 2], [2, 9]]"
  by (simp add: readLoop.simps loop_defs example_defs acceptingHandlers_def encodeFrame_def)

subsection \<open>Closing with an error message\<close>

lemma encodeFrame_single: "encodeFrame [m] = [1, 0, m]"
  by (simp add: encodeFrame_def)

text \<open>
  C10. \<^verbatim>\<open>closeTCPConnectionWithError\<close> first writes the frame that holds only the error
  message type and then sends the close signal; when the write fails it returns the write
  error and leaves the connection as it was: no signal in the channel, so no cleanup is
  triggered, and the transport not closed.
\<close>

theorem closeTCPConnectionWithError_write_then_signal:
  "(writeErr c = None \<and> closer c = 0 \<longrightarrow>
      closeTCPConnectionWithError (IsTcpConn c) m =
        Some (None, IsTcpConn (c\<lparr>outgoing := outgoing c @ [1, 0, m], closer := 1\<rparr>))) \<and>
   (writeErr c = Some e \<longrightarrow>
      closeTCPConnectionWithError (IsTcpConn c) m = Some (Some e, IsTcpConn c))"
  by (simp add: closeTCPConnectionWithError_def WriteTCP_def encodeFrame_single)

theorem closeTCPConnectionWithError_write_then_signal_witness:
  "writeErr (conn (newWorld [] [])) = None \<and> closer (conn (newWorld [] [])) = 0 \<and>
   closeTCPConnectionWithError (IsTcpConn (conn (newWorld [] []))) 42 =
     Some (None, IsTcpConn ((conn (newWorld [] []))\<lparr>outgoing := [1, 0, 42], closer := 1\<rparr>)) \<and>
   writeErr ((conn (newWorld [] []))\<lparr>writeErr := Some (OpError False)\<rparr>) = Some (OpError False) \<and>
   closeTCPConnectionWithError
       (IsTcpConn ((conn (newWorld [] []))\<lparr>writeErr := Some (OpError False)\<rparr>)) 42 =
     Some (Some (OpError False),
           IsTcpConn ((conn (newWorld [] []))\<lparr>writeErr := Some (OpError False)\<rparr>))"
  using closeTCPConnectionWithError_write_then_signal
      [where c = "conn (newWorld [] [])" and m = 42]
    closeTCPConnectionWithError_write_then_signal
      [where c = "(conn (newWorld [] []))\<lparr>writeErr := Some (OpError False)\<rparr>"
         and m = 42 and e = "OpError False"]
  by (simp add: newWorld_def)

section \<open>Properties of the resolver\<close>

text \<open>
  A sibling of \<^verbatim>\<open>resolvePenaltiesManager\<close> whose guard tests its own field: the second
  call returns the pointer of the first and constructs nothing.
\<close>

lemma resolveTrackManager_idempotent:
  "resolveTrackManager (snd (resolveTrackManager r)) =
     (fst (resolveTrackManager r), snd (resolveTrackManager r))"
  by (simp add: resolveTrackManager_def construct_def Let_def)

text \<open>
  C9. Every resolve method is idempotent, \<^verbatim>\<open>resolvePenaltiesManager\<close> included. The code
  does not do this: on a fresh resolver the guard of \<^verbatim>\<open>resolvePenaltiesManager\<close> tests
  \<^verbatim>\<open>penaltiesHandler\<close>, which is still nil after the first call, so the second call
  constructs a second manager and returns a different pointer.
\<close>

theorem resolvePenaltiesManager_twice_differs:
  "fst (resolvePenaltiesManager freshResolver) = Some 0 \<and>
   fst (resolvePenaltiesManager (snd (resolvePenaltiesManager freshResolver))) = Some 1 \<and>
   constructed (snd (resolvePenaltiesManager (snd (resolvePenaltiesManager freshResolver)))) = 2"
  by (simp add: resolvePenaltiesManager_def construct_def freshResolver_def Let_def)

end
